theory Spec2Isabelle
  imports Complex_Main
begin

section \<open>Options of g.gui.rdigit\<close>

text \<open>
  The four options declared in the header of \<^verbatim>\<open>g.gui.rdigit.py\<close>. The parser hands
  every option to the script as a string; an option that was not given is the empty
  string, which is what the script tests with \<^verbatim>\<open>if kwargs["edit_map"]\<close>.
\<close>

record options =
  create :: string
  base :: string
  type :: string
  edit :: string

definition given :: "string \<Rightarrow> bool" where
  "given answer \<longleftrightarrow> answer \<noteq> []"

text \<open>
  Modelled from the spec: the rule checker of the option parser (\<^verbatim>\<open>gs.parser\<close>), which is
  not part of the script. The script only declares the three rules
  \<^verbatim>\<open>exclusive: create, edit\<close>, \<^verbatim>\<open>required: create, edit\<close> and
  \<^verbatim>\<open>requires: base, create\<close>; their meaning is taken from the interface section of the
  specification: "Mutually exclusive: create vs edit; one is required; base requires
  create."
\<close>

definition exclusive :: "string list \<Rightarrow> bool" where
  "exclusive answers \<longleftrightarrow> length (filter given answers) \<le> 1"

definition required :: "string list \<Rightarrow> bool" where
  "required answers \<longleftrightarrow> list_ex given answers"

definition requires :: "string \<Rightarrow> string list \<Rightarrow> bool" where
  "requires answer others \<longleftrightarrow> (if given answer then list_ex given others else True)"

definition rules :: "options \<Rightarrow> bool" where
  "rules opts \<longleftrightarrow>
     exclusive [create opts, edit opts] \<and>
     required [create opts, edit opts] \<and>
     requires (base opts) [create opts]"

datatype error = ParserError | Fatal string

text \<open>
  Modelled from the spec: \<^verbatim>\<open>gs.parser()\<close> returns the options when the rules hold and
  ends the process otherwise.
\<close>

definition parser :: "options \<Rightarrow> error + options" where
  "parser opts = (if rules opts then Inr opts else Inl ParserError)"


section \<open>Framework calls made by the script\<close>

datatype handler =
    OnCloseWindow | OnFullScreen | OnMapCreatedSlot | OnMapSelectionSlot
  | QuitRDigit | CloseWindow

datatype wx_event = EVT_CLOSE | EVT_COMBOBOX

record layer =
  ltype :: string
  name :: string
  command :: "string list"
  active :: bool
  hidden :: bool
  opacity :: real
  render :: bool

text \<open>
  Every call the script makes into the toolkit, the map object, the digitizer and the
  process environment, in the order of the source.
\<close>

datatype action =
    SetRaiseOnError bool
  | SetGuiPath
  | SetEnviron string string
  | WxApp
  | WxFrame "nat \<times> nat" string
  | MapPanelInit
  | SetIcon string string
  | ParentBind wx_event handler
  | ShortcutsAppend handler
  | InitShortcuts
  | SetMapframe
  | MapCreatedConnect handler
  | GetMap
  | AddLayer layer
  | AddToolbar string bool
  | ComboUnbind wx_event
  | SelectNewMap bool string string string
  | ComboBind wx_event handler
  | SetSelection nat
  | OnMapSelection
  | QuitDigitizerDisconnect handler
  | QuitDigitizerConnect handler
  | SetSizer
  | Layout
  | MapClean
  | GetMapWindow
  | UpdateMap
  | FrameShow
  | MainLoop

record state =
  calls :: "action list"
  environ :: "string \<Rightarrow> string option"

definition call :: "action \<Rightarrow> state \<Rightarrow> state" where
  "call a s = s\<lparr>calls := calls s @ [a]\<rparr>"

definition setenv :: "string \<Rightarrow> string \<Rightarrow> state \<Rightarrow> state" where
  "setenv k v s = call (SetEnviron k v) (s\<lparr>environ := (environ s)(k \<mapsto> v)\<rparr>)"


section \<open>The class RDigitMapDisplay\<close>

text \<open>\<^verbatim>\<open>_addLayer(name, ltype="raster")\<close>\<close>

definition addLayer :: "string \<Rightarrow> string \<Rightarrow> state \<Rightarrow> state" where
  "addLayer nm lt =
     call (AddLayer \<lparr>ltype = lt, name = nm, command = [''d.rast'', ''map='' @ nm],
                     active = True, hidden = False, opacity = 1, render = True\<rparr>)"

text \<open>\<^verbatim>\<open>OnMapCreated(name, ltype, add=None)\<close>; the third argument is unused.\<close>

definition OnMapCreated :: "string \<Rightarrow> string \<Rightarrow> bool option \<Rightarrow> state \<Rightarrow> state" where
  "OnMapCreated nm lt add s0 =
     (let s1 = call MapClean s0;
          s2 = addLayer nm lt s1;
          s3 = call GetMapWindow s2;
          s4 = call UpdateMap s3
      in s4)"

text \<open>
  \<^verbatim>\<open>__init__(parent, new_map, base_map, edit_map, map_type)\<close>. The script's only call
  passes the four option strings, so the arguments are strings here and Python's
  \<^verbatim>\<open>new_map or edit_map\<close> picks \<^verbatim>\<open>new_map\<close> exactly when it is not empty. The icon
  directory is a constant of the framework and taken as a parameter.
\<close>

definition select_map :: "string \<Rightarrow> string \<Rightarrow> string \<Rightarrow> state \<Rightarrow> state" where
  "select_map new_map base_map map_type s0 =
     (if new_map \<noteq> [] then
        (let s1 = call (ComboUnbind EVT_COMBOBOX) s0;
             s2 = call (SelectNewMap True new_map base_map map_type) s1;
             s3 = call (ComboBind EVT_COMBOBOX OnMapSelectionSlot) s2
         in s3)
      else
        (let s1 = call (SetSelection 1) s0;
             s2 = call OnMapSelection s1
         in s2))"

definition RDigitMapDisplay_init ::
  "string \<Rightarrow> string \<Rightarrow> string \<Rightarrow> string \<Rightarrow> string \<Rightarrow> state \<Rightarrow> state" where
  "RDigitMapDisplay_init icondir new_map base_map edit_map map_type s0 =
     (let s1 = call MapPanelInit s0;
          s2 = call (SetIcon icondir ''grass.ico'') s1;
          s3 = call (ParentBind EVT_CLOSE OnCloseWindow) s2;
          s4 = call (ShortcutsAppend OnFullScreen) s3;
          s5 = call InitShortcuts s4;
          s6 = call SetMapframe s5;
          s7 = call (MapCreatedConnect OnMapCreatedSlot) s6;
          s8 = call GetMap s7;
          s9 = addLayer (if new_map \<noteq> [] then new_map else edit_map) ''raster'' s8;
          s10 = call (AddToolbar ''rdigit'' True) s9;
          s11 = select_map new_map base_map map_type s10;
          s12 = call (QuitDigitizerDisconnect QuitRDigit) s11;
          s13 = call (QuitDigitizerConnect CloseWindow) s12;
          s14 = call SetSizer s13;
          s15 = call Layout s14
      in s15)"


section \<open>The function main\<close>

text \<open>
  What \<^verbatim>\<open>main\<close> reads from its surroundings: the raster lookup \<^verbatim>\<open>gs.find_file\<close>
  (name, element, mapset; the field \<^verbatim>\<open>fullname\<close> of its answer, empty when nothing was
  found), the current mapset, the user's display driver, the icon directory and the
  process environment at start.
\<close>

record env =
  find_file :: "string \<Rightarrow> string \<Rightarrow> string \<Rightarrow> string"
  MAPSET :: string
  driver :: string
  ICONDIR :: string
  environ0 :: "string \<Rightarrow> string option"

record kwargs =
  new_map :: string
  base_map :: string
  edit_map :: string
  map_type :: string

text \<open>
  Lines 178 to 214: the keyword arguments and the lookup of the raster to edit or of the
  base raster. \<^verbatim>\<open>gs.fatal\<close> ends the process (\<^verbatim>\<open>set_raise_on_error(False)\<close> was
  called first), so it is the error branch.
\<close>

definition resolve :: "env \<Rightarrow> options \<Rightarrow> error + kwargs" where
  "resolve e opts =
     (let kw = \<lparr>new_map = create opts, base_map = base opts,
                edit_map = edit opts, map_type = type opts\<rparr>;
          mapset = MAPSET e
      in
      if edit_map kw \<noteq> [] then
        (let found = find_file e (edit_map kw) ''raster'' mapset in
         if found = [] then
           Inl (Fatal (''Raster map <'' @ edit opts @ ''> not found in current mapset.''))
         else Inr (kw\<lparr>edit_map := found\<rparr>))
      else if base_map kw \<noteq> [] then
        (let found = find_file e (base_map kw) ''raster'' mapset in
         if found = [] then
           Inl (Fatal (''Base raster map <'' @ base opts @ ''> not found in current mapset.''))
         else Inr (kw\<lparr>base_map := found\<rparr>))
      else Inr kw)"

text \<open>Lines 216 to 225: the rendering driver.\<close>

definition select_driver :: "env \<Rightarrow> state \<Rightarrow> state" where
  "select_driver e s =
     (if driver e = ''png'' then setenv ''GRASS_RENDER_IMMEDIATE'' ''png'' s
      else setenv ''GRASS_RENDER_IMMEDIATE'' ''cairo'' s)"

text \<open>Lines 227 to 238: the application, the frame, the map display and the event loop.\<close>

definition show_window :: "env \<Rightarrow> kwargs \<Rightarrow> state \<Rightarrow> state" where
  "show_window e kw s0 =
     (let s1 = call WxApp s0;
          s2 = call (WxFrame (850, 600) ''Raster Digitizer - GRASS GIS'') s1;
          s3 = RDigitMapDisplay_init (ICONDIR e) (new_map kw) (base_map kw) (edit_map kw)
                 (map_type kw) s2;
          s4 = call FrameShow s3;
          s5 = call MainLoop s4
      in s5)"

text \<open>
  The whole of \<^verbatim>\<open>main\<close>, up to the entry into the event loop: the error that ended the
  process, if any, and the state reached.
\<close>

definition main :: "env \<Rightarrow> options \<Rightarrow> error option \<times> state" where
  "main e user_opts =
     (let s0 = call (SetRaiseOnError False) \<lparr>calls = [], environ = environ0 e\<rparr> in
      case parser user_opts of
        Inl err \<Rightarrow> (Some err, s0)
      | Inr opts \<Rightarrow>
          (let s1 = call SetGuiPath s0 in
           case resolve e opts of
             Inl err \<Rightarrow> (Some err, s1)
           | Inr kw \<Rightarrow> (None, show_window e kw (select_driver e s1))))"

text \<open>Map-created notifications that arrive while the event loop runs, in order.\<close>

fun notifications :: "(string \<times> string \<times> bool option) list \<Rightarrow> state \<Rightarrow> state" where
  "notifications [] s = s"
| "notifications ((nm, lt, add) # rest) s = notifications rest (OnMapCreated nm lt add s)"


section \<open>Views of a call sequence\<close>

fun added_layers :: "action list \<Rightarrow> layer list" where
  "added_layers [] = []"
| "added_layers (AddLayer l # as) = l # added_layers as"
| "added_layers (a # as) = added_layers as"

text \<open>A window exists once the frame or the map panel has been constructed.\<close>

fun constructs_window :: "action \<Rightarrow> bool" where
  "constructs_window WxApp = True"
| "constructs_window (WxFrame sz title) = True"
| "constructs_window MapPanelInit = True"
| "constructs_window FrameShow = True"
| "constructs_window a = False"

text \<open>
  Modelled from the spec: the layer stack of the map object (\<^verbatim>\<open>core.render.Map\<close>, not
  part of the script) as the script's own calls leave it: "add/clean layer", where
  cleaning removes the old layers.
\<close>

fun map_layers :: "layer list \<Rightarrow> action list \<Rightarrow> layer list" where
  "map_layers ls [] = ls"
| "map_layers ls (AddLayer l # as) = map_layers (ls @ [l]) as"
| "map_layers ls (MapClean # as) = map_layers [] as"
| "map_layers ls (a # as) = map_layers ls as"

text \<open>An example installation: one raster \<open>elev\<close> in the mapset \<open>user1\<close>.\<close>

definition demo_env :: env where
  "demo_env =
     \<lparr>find_file = (\<lambda>nm element mapset.
         if nm = ''elev'' \<and> element = ''raster'' \<and> mapset = ''user1''
         then ''elev@user1'' else []),
      MAPSET = ''user1'', driver = ''png'', ICONDIR = ''/usr/lib/grass/gui/icons'',
      environ0 = Map.empty\<rparr>"

text \<open>Which calls belong to the create-mode and to the edit-mode selection path.\<close>

fun create_path :: "action \<Rightarrow> bool" where
  "create_path (SelectNewMap standalone mapName bgMap mapType) = True"
| "create_path a = False"

fun edit_path :: "action \<Rightarrow> bool" where
  "edit_path (SetSelection n) = True"
| "edit_path OnMapSelection = True"
| "edit_path a = False"

fun quit_wiring :: "action \<Rightarrow> bool" where
  "quit_wiring (QuitDigitizerDisconnect h) = True"
| "quit_wiring (QuitDigitizerConnect h) = True"
| "quit_wiring a = False"

text \<open>Example command lines.\<close>

definition both_given :: options where
  "both_given = \<lparr>create = ''newmap'', base = ''bg'', type = ''CELL'', edit = ''elev''\<rparr>"

definition none_given :: options where
  "none_given = \<lparr>create = [], base = [], type = ''CELL'', edit = []\<rparr>"

definition edit_elev :: options where
  "edit_elev = \<lparr>create = [], base = [], type = ''CELL'', edit = ''elev''\<rparr>"

definition edit_missing :: options where
  "edit_missing = \<lparr>create = [], base = [], type = ''CELL'', edit = ''nonexistent''\<rparr>"

definition create_plain :: options where
  "create_plain = \<lparr>create = ''newmap'', base = [], type = ''CELL'', edit = []\<rparr>"

definition create_on_elev :: options where
  "create_on_elev = \<lparr>create = ''newmap'', base = ''elev'', type = ''CELL'', edit = []\<rparr>"

definition create_missing_base :: options where
  "create_missing_base =
     \<lparr>create = ''newmap'', base = ''nonexistent'', type = ''CELL'', edit = []\<rparr>"

definition base_only :: options where
  "base_only = \<lparr>create = [], base = ''elev'', type = ''CELL'', edit = []\<rparr>"

text \<open>The example installation with another display driver.\<close>

definition cairo_env :: env where
  "cairo_env = demo_env\<lparr>driver := ''default''\<rparr>"


section \<open>Calls and environment of each operation\<close>

lemma calls_call [simp]: "calls (call a s) = calls s @ [a]"
  by (simp add: call_def)

lemma environ_call [simp]: "environ (call a s) = environ s"
  by (simp add: call_def)

lemma calls_setenv [simp]: "calls (setenv k v s) = calls s @ [SetEnviron k v]"
  by (simp add: setenv_def)

lemma environ_setenv [simp]: "environ (setenv k v s) = (environ s)(k \<mapsto> v)"
  by (simp add: setenv_def)

lemma calls_addLayer [simp]:
  "calls (addLayer nm lt s) = calls s @
     [AddLayer \<lparr>ltype = lt, name = nm, command = [''d.rast'', ''map='' @ nm],
                active = True, hidden = False, opacity = 1, render = True\<rparr>]"
  by (simp add: addLayer_def)

lemma environ_addLayer [simp]: "environ (addLayer nm lt s) = environ s"
  by (simp add: addLayer_def)

lemma calls_select_map:
  "calls (select_map n b t s) = calls s @
     (if n \<noteq> [] then [ComboUnbind EVT_COMBOBOX, SelectNewMap True n b t,
                        ComboBind EVT_COMBOBOX OnMapSelectionSlot]
      else [SetSelection 1, OnMapSelection])"
  by (simp add: select_map_def Let_def)

lemma environ_select_map [simp]: "environ (select_map n b t s) = environ s"
  by (simp add: select_map_def Let_def)

lemma calls_init:
  "calls (RDigitMapDisplay_init icondir n b ed t s) = calls s @
     [MapPanelInit, SetIcon icondir ''grass.ico'', ParentBind EVT_CLOSE OnCloseWindow,
      ShortcutsAppend OnFullScreen, InitShortcuts, SetMapframe,
      MapCreatedConnect OnMapCreatedSlot, GetMap,
      AddLayer \<lparr>ltype = ''raster'', name = (if n \<noteq> [] then n else ed),
                command = [''d.rast'', ''map='' @ (if n \<noteq> [] then n else ed)],
                active = True, hidden = False, opacity = 1, render = True\<rparr>,
      AddToolbar ''rdigit'' True] @
     (if n \<noteq> [] then [ComboUnbind EVT_COMBOBOX, SelectNewMap True n b t,
                        ComboBind EVT_COMBOBOX OnMapSelectionSlot]
      else [SetSelection 1, OnMapSelection]) @
     [QuitDigitizerDisconnect QuitRDigit, QuitDigitizerConnect CloseWindow, SetSizer, Layout]"
  by (simp add: RDigitMapDisplay_init_def Let_def calls_select_map)

lemma environ_init [simp]: "environ (RDigitMapDisplay_init icondir n b ed t s) = environ s"
  by (simp add: RDigitMapDisplay_init_def Let_def)

lemma calls_OnMapCreated:
  "calls (OnMapCreated nm lt add s) = calls s @
     [MapClean,
      AddLayer \<lparr>ltype = lt, name = nm, command = [''d.rast'', ''map='' @ nm],
                active = True, hidden = False, opacity = 1, render = True\<rparr>,
      GetMapWindow, UpdateMap]"
  by (simp add: OnMapCreated_def Let_def)

lemma calls_show_window:
  "calls (show_window e kw s) = calls s @
     [WxApp, WxFrame (850, 600) ''Raster Digitizer - GRASS GIS''] @
     [MapPanelInit, SetIcon (ICONDIR e) ''grass.ico'', ParentBind EVT_CLOSE OnCloseWindow,
      ShortcutsAppend OnFullScreen, InitShortcuts, SetMapframe,
      MapCreatedConnect OnMapCreatedSlot, GetMap,
      AddLayer \<lparr>ltype = ''raster'',
                name = (if new_map kw \<noteq> [] then new_map kw else edit_map kw),
                command = [''d.rast'',
                  ''map='' @ (if new_map kw \<noteq> [] then new_map kw else edit_map kw)],
                active = True, hidden = False, opacity = 1, render = True\<rparr>,
      AddToolbar ''rdigit'' True] @
     (if new_map kw \<noteq> []
      then [ComboUnbind EVT_COMBOBOX,
            SelectNewMap True (new_map kw) (base_map kw) (map_type kw),
            ComboBind EVT_COMBOBOX OnMapSelectionSlot]
      else [SetSelection 1, OnMapSelection]) @
     [QuitDigitizerDisconnect QuitRDigit, QuitDigitizerConnect CloseWindow, SetSizer, Layout,
      FrameShow, MainLoop]"
  by (simp add: show_window_def Let_def calls_init)

lemma environ_show_window [simp]: "environ (show_window e kw s) = environ s"
  by (simp add: show_window_def Let_def)

lemma calls_select_driver:
  "calls (select_driver e s) = calls s @
     [SetEnviron ''GRASS_RENDER_IMMEDIATE'' (if driver e = ''png'' then ''png'' else ''cairo'')]"
  by (simp add: select_driver_def)

lemma environ_select_driver:
  "environ (select_driver e s) =
     (environ s)(''GRASS_RENDER_IMMEDIATE'' \<mapsto>
        (if driver e = ''png'' then ''png'' else ''cairo''))"
  by (simp add: select_driver_def)


section \<open>The three ways a run of main can go\<close>

lemma rules_iff:
  "rules opts \<longleftrightarrow>
     (given (create opts) \<noteq> given (edit opts)) \<and> (given (base opts) \<longrightarrow> given (create opts))"
  by (auto simp add: rules_def exclusive_def required_def requires_def)

lemma rules_demo:
  "rules edit_elev" "rules edit_missing" "rules create_plain" "rules create_on_elev"
  "rules create_missing_base" "\<not> rules base_only" "\<not> rules both_given" "\<not> rules none_given"
  by (simp_all add: rules_iff given_def edit_elev_def edit_missing_def create_plain_def
      create_on_elev_def create_missing_base_def base_only_def both_given_def none_given_def)

lemma main_parser_error:
  "\<not> rules opts \<Longrightarrow>
   main e opts = (Some ParserError, \<lparr>calls = [SetRaiseOnError False], environ = environ0 e\<rparr>)"
  by (simp add: main_def parser_def Let_def call_def)

lemma main_fatal:
  "rules opts \<Longrightarrow> resolve e opts = Inl err \<Longrightarrow>
   main e opts =
     (Some err, \<lparr>calls = [SetRaiseOnError False, SetGuiPath], environ = environ0 e\<rparr>)"
  by (simp add: main_def parser_def Let_def call_def)

lemma main_ok:
  "rules opts \<Longrightarrow> resolve e opts = Inr kw \<Longrightarrow>
   main e opts = (None, show_window e kw (select_driver e
      \<lparr>calls = [SetRaiseOnError False, SetGuiPath], environ = environ0 e\<rparr>))"
  by (simp add: main_def parser_def Let_def call_def)

lemma resolve_edit_missing:
  "given (edit opts) \<Longrightarrow> find_file e (edit opts) ''raster'' (MAPSET e) = [] \<Longrightarrow>
   resolve e opts =
     Inl (Fatal (''Raster map <'' @ edit opts @ ''> not found in current mapset.''))"
  by (simp add: resolve_def Let_def given_def)

lemma resolve_edit_found:
  "given (edit opts) \<Longrightarrow> find_file e (edit opts) ''raster'' (MAPSET e) \<noteq> [] \<Longrightarrow>
   resolve e opts = Inr \<lparr>new_map = create opts, base_map = base opts,
      edit_map = find_file e (edit opts) ''raster'' (MAPSET e), map_type = type opts\<rparr>"
  by (simp add: resolve_def Let_def given_def)

lemma resolve_base_missing:
  "\<not> given (edit opts) \<Longrightarrow> given (base opts) \<Longrightarrow>
   find_file e (base opts) ''raster'' (MAPSET e) = [] \<Longrightarrow>
   resolve e opts =
     Inl (Fatal (''Base raster map <'' @ base opts @ ''> not found in current mapset.''))"
  by (simp add: resolve_def Let_def given_def)

lemma resolve_base_found:
  "\<not> given (edit opts) \<Longrightarrow> given (base opts) \<Longrightarrow>
   find_file e (base opts) ''raster'' (MAPSET e) \<noteq> [] \<Longrightarrow>
   resolve e opts = Inr \<lparr>new_map = create opts,
      base_map = find_file e (base opts) ''raster'' (MAPSET e),
      edit_map = edit opts, map_type = type opts\<rparr>"
  by (simp add: resolve_def Let_def given_def)

lemma resolve_no_base:
  "\<not> given (edit opts) \<Longrightarrow> \<not> given (base opts) \<Longrightarrow>
   resolve e opts = Inr \<lparr>new_map = create opts, base_map = base opts,
      edit_map = edit opts, map_type = type opts\<rparr>"
  by (simp add: resolve_def Let_def given_def)


section \<open>Layers added along a run\<close>

lemma added_layers_append: "added_layers (xs @ ys) = added_layers xs @ added_layers ys"
  by (induction xs rule: added_layers.induct) simp_all

lemma map_layers_append: "map_layers ls (xs @ ys) = map_layers (map_layers ls xs) ys"
  by (induction ls xs rule: map_layers.induct) simp_all

lemma layers_main:
  "added_layers (calls (snd (main e opts))) = [] \<or>
   (\<exists>nm. added_layers (calls (snd (main e opts))) =
      [\<lparr>ltype = ''raster'', name = nm, command = [''d.rast'', ''map='' @ nm],
        active = True, hidden = False, opacity = 1, render = True\<rparr>])"
proof (cases "rules opts")
  case False
  then show ?thesis by (simp add: main_parser_error)
next
  case True
  show ?thesis
  proof (cases "resolve e opts")
    case (Inl err)
    with True show ?thesis by (simp add: main_fatal)
  next
    case (Inr kw)
    with True show ?thesis
      by (simp add: main_ok calls_show_window calls_select_driver)
  qed
qed

lemma layers_notifications:
  "\<forall>l \<in> set (added_layers (calls s)). P l \<Longrightarrow>
   (\<And>nm lt. P \<lparr>ltype = lt, name = nm, command = [''d.rast'', ''map='' @ nm],
       active = True, hidden = False, opacity = 1, render = True\<rparr>) \<Longrightarrow>
   \<forall>l \<in> set (added_layers (calls (notifications ns s))). P l"
proof (induction ns arbitrary: s)
  case Nil
  then show ?case by simp
next
  case (Cons n ns)
  obtain nm lt add where n: "n = (nm, lt, add)" by (cases n)
  have "\<forall>l \<in> set (added_layers (calls (OnMapCreated nm lt add s))). P l"
    using Cons.prems by (simp add: calls_OnMapCreated added_layers_append)
  then have "\<forall>l \<in> set (added_layers (calls (notifications ns (OnMapCreated nm lt add s)))). P l"
    using Cons.prems(2) by (rule Cons.IH)
  then show ?case by (simp add: n)
qed


section \<open>Option validation and map resolution\<close>

text \<open>
  Claim C1. Whenever \<open>create\<close> and \<open>edit\<close> are both given, and whenever neither is
  given, the run ends with the parser's error and the calls made so far construct no
  window; a run that does not end with the parser's error has exactly one of the two.
\<close>

theorem main_rejects_both_or_neither:
  "(given (create opts) = given (edit opts) \<longrightarrow>
      fst (main e opts) = Some ParserError \<and>
      \<not> list_ex constructs_window (calls (snd (main e opts)))) \<and>
   (fst (main e opts) \<noteq> Some ParserError \<longrightarrow> given (create opts) \<noteq> given (edit opts))"
proof -
  have fails: "fst (main e opts) = Some ParserError \<and>
      \<not> list_ex constructs_window (calls (snd (main e opts)))"
    if "given (create opts) = given (edit opts)"
  proof -
    from that have "\<not> rules opts" by (simp add: rules_iff)
    then show ?thesis by (simp add: main_parser_error)
  qed
  then show ?thesis by blast
qed

theorem main_rejects_both_or_neither_witness:
  "given (create both_given) = given (edit both_given) \<and>
   fst (main demo_env both_given) = Some ParserError \<and>
   given (create none_given) = given (edit none_given) \<and>
   fst (main demo_env none_given) = Some ParserError \<and>
   fst (main demo_env create_plain) \<noteq> Some ParserError \<and>
   given (create create_plain) \<noteq> given (edit create_plain)"
proof -
  have "\<not> given (edit create_plain)" "\<not> given (base create_plain)"
    by (simp_all add: given_def create_plain_def)
  from main_ok [OF rules_demo(3) resolve_no_base [OF this, of demo_env]]
  have "fst (main demo_env create_plain) \<noteq> Some ParserError" by simp
  then show ?thesis
    using main_rejects_both_or_neither [of both_given demo_env]
      main_rejects_both_or_neither [of none_given demo_env]
      main_rejects_both_or_neither [of create_plain demo_env]
    by (simp add: both_given_def none_given_def given_def)
qed

text \<open>
  Claim C8, as the code has it. The rule \<^verbatim>\<open>requires: base, create\<close> makes \<open>base\<close> depend
  on \<open>create\<close>, not the other way round: a run with \<open>base\<close> and without \<open>create\<close> ends
  with the parser's error before any window is constructed, while \<open>create\<close> alone, with
  neither \<open>edit\<close> nor \<open>base\<close>, passes the parser and the run reaches the event loop.
\<close>

theorem base_requires_create:
  "(given (base opts) \<and> \<not> given (create opts) \<longrightarrow>
      fst (main e opts) = Some ParserError \<and>
      \<not> list_ex constructs_window (calls (snd (main e opts)))) \<and>
   (given (create opts) \<and> \<not> given (edit opts) \<and> \<not> given (base opts) \<longrightarrow>
      parser opts = Inr opts \<and> fst (main e opts) = None)"
proof -
  have "fst (main e opts) = Some ParserError \<and>
      \<not> list_ex constructs_window (calls (snd (main e opts)))"
    if "given (base opts) \<and> \<not> given (create opts)"
  proof -
    from that have "\<not> rules opts" by (simp add: rules_iff)
    then show ?thesis by (simp add: main_parser_error)
  qed
  moreover have "parser opts = Inr opts \<and> fst (main e opts) = None"
    if "given (create opts) \<and> \<not> given (edit opts) \<and> \<not> given (base opts)"
  proof -
    from that have r: "rules opts" by (simp add: rules_iff)
    from that have "resolve e opts = Inr \<lparr>new_map = create opts, base_map = base opts,
      edit_map = edit opts, map_type = type opts\<rparr>"
      by (simp add: resolve_no_base)
    from main_ok [OF r this] r show ?thesis by (simp add: parser_def)
  qed
  ultimately show ?thesis by blast
qed

theorem base_requires_create_witness:
  "given (base base_only) \<and> \<not> given (create base_only) \<and>
   fst (main demo_env base_only) = Some ParserError \<and>
   given (create create_plain) \<and> \<not> given (edit create_plain) \<and>
   \<not> given (base create_plain) \<and> parser create_plain = Inr create_plain"
  using base_requires_create [of base_only demo_env]
    base_requires_create [of create_plain demo_env]
  by (simp add: given_def base_only_def create_plain_def)

text \<open>
  Claim C8 as the specification words it ("base is required if create is given") fails
  for \<open>create=newmap\<close> without \<open>base\<close>: the parser accepts the options and the frame is
  constructed.
\<close>

theorem create_without_base_accepted:
  "given (create create_plain) \<and> \<not> given (base create_plain) \<and>
   parser create_plain = Inr create_plain \<and>
   fst (main demo_env create_plain) = None \<and>
   WxFrame (850, 600) ''Raster Digitizer - GRASS GIS''
     \<in> set (calls (snd (main demo_env create_plain)))"
proof -
  have ne: "\<not> given (edit create_plain)" and nb: "\<not> given (base create_plain)"
    by (simp_all add: given_def create_plain_def)
  note run = main_ok [OF rules_demo(3) resolve_no_base [OF ne nb, of demo_env]]
  have "given (create create_plain)" by (simp add: given_def create_plain_def)
  moreover have "parser create_plain = Inr create_plain"
    by (simp add: parser_def rules_demo)
  moreover have "fst (main demo_env create_plain) = None" by (simp add: run)
  moreover have "WxFrame (850, 600) ''Raster Digitizer - GRASS GIS''
     \<in> set (calls (snd (main demo_env create_plain)))"
    by (simp add: run calls_show_window calls_select_driver)
  ultimately show ?thesis using nb by blast
qed

text \<open>
  Claim C2. Whenever \<open>edit\<close> names a raster that the lookup does not find, and whenever
  \<open>create\<close> is given and \<open>base\<close> names a raster that the lookup does not find, the run
  ends with an error and no window is constructed. When the rules of the parser hold, the
  error is the fatal "not found" message of \<^verbatim>\<open>main\<close>; otherwise the parser has already
  ended the run.
\<close>

theorem main_fatal_on_missing_raster:
  assumes "given (edit opts) \<and> find_file e (edit opts) ''raster'' (MAPSET e) = [] \<or>
           given (create opts) \<and> given (base opts) \<and>
             find_file e (base opts) ''raster'' (MAPSET e) = []"
  shows "fst (main e opts) =
           Some (if \<not> rules opts then ParserError
                 else if given (edit opts)
                 then Fatal (''Raster map <'' @ edit opts @ ''> not found in current mapset.'')
                 else Fatal (''Base raster map <'' @ base opts @
                             ''> not found in current mapset.'')) \<and>
         \<not> list_ex constructs_window (calls (snd (main e opts)))"
proof (cases "rules opts")
  case False
  then show ?thesis by (simp add: main_parser_error)
next
  case True
  show ?thesis
  proof (cases "given (edit opts)")
    case edit: True
    with assms True have "find_file e (edit opts) ''raster'' (MAPSET e) = []"
      by (auto simp add: rules_iff)
    with edit have "resolve e opts =
        Inl (Fatal (''Raster map <'' @ edit opts @ ''> not found in current mapset.''))"
      by (rule resolve_edit_missing)
    with True edit show ?thesis by (simp add: main_fatal)
  next
    case no_edit: False
    with assms have "given (base opts)" "find_file e (base opts) ''raster'' (MAPSET e) = []"
      by auto
    with no_edit have "resolve e opts =
        Inl (Fatal (''Base raster map <'' @ base opts @ ''> not found in current mapset.''))"
      by (rule resolve_base_missing)
    with True no_edit show ?thesis by (simp add: main_fatal)
  qed
qed

theorem main_fatal_on_missing_raster_witness:
  "fst (main demo_env edit_missing) =
     Some (Fatal ''Raster map <nonexistent> not found in current mapset.'') \<and>
   fst (main demo_env create_missing_base) =
     Some (Fatal ''Base raster map <nonexistent> not found in current mapset.'')"
  using main_fatal_on_missing_raster [of edit_missing demo_env]
    main_fatal_on_missing_raster [of create_missing_base demo_env]
  by (simp add: rules_demo)
     (simp add: edit_missing_def create_missing_base_def given_def demo_env_def)


section \<open>Window construction\<close>

text \<open>
  Claim C3, as the code has it. For every run that passes the rules with \<open>edit\<close> naming
  a raster the lookup finds, exactly one layer is added; it is named by the full name
  the lookup returned (\<^verbatim>\<open>kwargs["edit_map"] = edit_map\<close>), with the standard render
  command. The toolbar's edit-mode path runs, \<^verbatim>\<open>SetSelection(n=1)\<close> directly followed by
  \<^verbatim>\<open>OnMapSelection()\<close>, once, and \<^verbatim>\<open>SelectNewMap\<close> is never called.
\<close>

theorem edit_mode_layer_and_selection:
  assumes "rules opts" and "given (edit opts)"
    and "find_file e (edit opts) ''raster'' (MAPSET e) \<noteq> []"
  shows "fst (main e opts) = None \<and>
     added_layers (calls (snd (main e opts))) =
       [\<lparr>ltype = ''raster'', name = find_file e (edit opts) ''raster'' (MAPSET e),
         command = [''d.rast'', ''map='' @ find_file e (edit opts) ''raster'' (MAPSET e)],
         active = True, hidden = False, opacity = 1, render = True\<rparr>] \<and>
     (\<exists>before after. calls (snd (main e opts)) = before @ [SetSelection 1, OnMapSelection] @ after
        \<and> \<not> list_ex edit_path before \<and> \<not> list_ex edit_path after) \<and>
     \<not> list_ex create_path (calls (snd (main e opts)))"
proof -
  let ?found = "find_file e (edit opts) ''raster'' (MAPSET e)"
  let ?kw = "\<lparr>new_map = create opts, base_map = base opts, edit_map = ?found,
      map_type = type opts\<rparr>"
  from assms have no_create: "create opts = []" by (simp add: rules_iff given_def)
  have res: "resolve e opts = Inr ?kw" using assms(2,3) by (rule resolve_edit_found)
  note run = main_ok [OF assms(1) res]
  have calls: "calls (snd (main e opts)) =
     ([SetRaiseOnError False, SetGuiPath,
       SetEnviron ''GRASS_RENDER_IMMEDIATE'' (if driver e = ''png'' then ''png'' else ''cairo''),
       WxApp, WxFrame (850, 600) ''Raster Digitizer - GRASS GIS'',
       MapPanelInit, SetIcon (ICONDIR e) ''grass.ico'', ParentBind EVT_CLOSE OnCloseWindow,
       ShortcutsAppend OnFullScreen, InitShortcuts, SetMapframe,
       MapCreatedConnect OnMapCreatedSlot, GetMap,
       AddLayer \<lparr>ltype = ''raster'', name = ?found, command = [''d.rast'', ''map='' @ ?found],
                 active = True, hidden = False, opacity = 1, render = True\<rparr>,
       AddToolbar ''rdigit'' True]) @ [SetSelection 1, OnMapSelection] @
     [QuitDigitizerDisconnect QuitRDigit, QuitDigitizerConnect CloseWindow, SetSizer, Layout,
      FrameShow, MainLoop]"
    (is "_ = ?before @ _ @ ?after")
    by (simp add: run calls_show_window calls_select_driver no_create)
  have "\<not> list_ex edit_path ?before" "\<not> list_ex edit_path ?after" by simp_all
  with calls have path: "\<exists>before after.
      calls (snd (main e opts)) = before @ [SetSelection 1, OnMapSelection] @ after
        \<and> \<not> list_ex edit_path before \<and> \<not> list_ex edit_path after"
    by blast
  have "fst (main e opts) = None" by (simp add: run)
  moreover have "added_layers (calls (snd (main e opts))) =
       [\<lparr>ltype = ''raster'', name = ?found, command = [''d.rast'', ''map='' @ ?found],
         active = True, hidden = False, opacity = 1, render = True\<rparr>]"
    by (simp add: calls)
  moreover have "\<not> list_ex create_path (calls (snd (main e opts)))"
    by (simp add: calls)
  ultimately show ?thesis using path by blast
qed

theorem edit_mode_layer_and_selection_witness:
  "map name (added_layers (calls (snd (main demo_env edit_elev)))) = [''elev@user1''] \<and>
   \<not> list_ex create_path (calls (snd (main demo_env edit_elev)))"
  using edit_mode_layer_and_selection [of edit_elev demo_env]
  by (simp add: rules_demo given_def) (simp add: edit_elev_def demo_env_def)

text \<open>
  Claim C3 as the specification words it, a layer named exactly the given \<open>edit\<close>
  string, fails where the lookup answers with a qualified name: for \<open>edit=elev\<close> in
  the mapset \<open>user1\<close> the layer is named \<open>elev@user1\<close>.
\<close>

theorem edit_layer_named_by_lookup:
  "rules edit_elev \<and> given (edit edit_elev) \<and>
   find_file demo_env (edit edit_elev) ''raster'' (MAPSET demo_env) \<noteq> [] \<and>
   map name (added_layers (calls (snd (main demo_env edit_elev)))) = [''elev@user1''] \<and>
   map name (added_layers (calls (snd (main demo_env edit_elev)))) \<noteq> [edit edit_elev]"
proof -
  have found: "find_file demo_env (edit edit_elev) ''raster'' (MAPSET demo_env) = ''elev@user1''"
    by (simp add: demo_env_def edit_elev_def)
  have g: "given (edit edit_elev)" by (simp add: given_def edit_elev_def)
  have r: "rules edit_elev" by (rule rules_demo)
  have "resolve demo_env edit_elev = Inr \<lparr>new_map = [], base_map = [],
      edit_map = ''elev@user1'', map_type = ''CELL''\<rparr>"
    using resolve_edit_found [OF g, of demo_env] found by (simp add: edit_elev_def)
  from main_ok [OF r this]
  have "map name (added_layers (calls (snd (main demo_env edit_elev)))) = [''elev@user1'']"
    by (simp add: calls_show_window calls_select_driver)
  with found g r show ?thesis by (simp add: edit_elev_def)
qed

text \<open>
  Claim C4. For every run that passes the rules with \<open>create\<close> given and \<open>base\<close>
  either absent or found by the lookup, the window is constructed and the calls contain,
  directly one after the other, the unbinding of the combo box's \<^verbatim>\<open>EVT_COMBOBOX\<close>, the
  call \<^verbatim>\<open>SelectNewMap(standalone=True, mapName, bgMap, mapType)\<close> and the binding of
  \<^verbatim>\<open>EVT_COMBOBOX\<close> to \<^verbatim>\<open>OnMapSelection\<close>; \<^verbatim>\<open>SelectNewMap\<close> is called nowhere else.
\<close>

theorem create_mode_selection:
  assumes "rules opts" and "given (create opts)"
    and "given (base opts) \<longrightarrow> find_file e (base opts) ''raster'' (MAPSET e) \<noteq> []"
  shows "fst (main e opts) = None \<and>
     (\<exists>before after. calls (snd (main e opts)) =
        before @
        [ComboUnbind EVT_COMBOBOX,
         SelectNewMap True (create opts)
           (if given (base opts) then find_file e (base opts) ''raster'' (MAPSET e) else [])
           (type opts),
         ComboBind EVT_COMBOBOX OnMapSelectionSlot] @ after
        \<and> \<not> list_ex create_path before \<and> \<not> list_ex create_path after)"
proof -
  let ?bg = "if given (base opts) then find_file e (base opts) ''raster'' (MAPSET e) else []"
  let ?kw = "\<lparr>new_map = create opts, base_map = ?bg, edit_map = edit opts,
      map_type = type opts\<rparr>"
  from assms(1,2) have no_edit: "\<not> given (edit opts)" by (simp add: rules_iff)
  have res: "resolve e opts = Inr ?kw"
  proof (cases "given (base opts)")
    case True
    with assms(3) no_edit show ?thesis by (simp add: resolve_base_found)
  next
    case False
    with no_edit show ?thesis by (simp add: resolve_no_base given_def)
  qed
  note run = main_ok [OF assms(1) res]
  from assms(2) have new: "create opts \<noteq> []" by (simp add: given_def)
  have calls: "calls (snd (main e opts)) =
     ([SetRaiseOnError False, SetGuiPath,
       SetEnviron ''GRASS_RENDER_IMMEDIATE'' (if driver e = ''png'' then ''png'' else ''cairo''),
       WxApp, WxFrame (850, 600) ''Raster Digitizer - GRASS GIS'',
       MapPanelInit, SetIcon (ICONDIR e) ''grass.ico'', ParentBind EVT_CLOSE OnCloseWindow,
       ShortcutsAppend OnFullScreen, InitShortcuts, SetMapframe,
       MapCreatedConnect OnMapCreatedSlot, GetMap,
       AddLayer \<lparr>ltype = ''raster'', name = create opts,
                 command = [''d.rast'', ''map='' @ create opts],
                 active = True, hidden = False, opacity = 1, render = True\<rparr>,
       AddToolbar ''rdigit'' True]) @
     [ComboUnbind EVT_COMBOBOX, SelectNewMap True (create opts) ?bg (type opts),
      ComboBind EVT_COMBOBOX OnMapSelectionSlot] @
     [QuitDigitizerDisconnect QuitRDigit, QuitDigitizerConnect CloseWindow, SetSizer, Layout,
      FrameShow, MainLoop]"
    (is "_ = ?before @ _ @ ?after")
    by (simp add: run calls_show_window calls_select_driver new)
  have "\<not> list_ex create_path ?before" "\<not> list_ex create_path ?after" by simp_all
  with calls have "\<exists>before after. calls (snd (main e opts)) =
        before @
        [ComboUnbind EVT_COMBOBOX, SelectNewMap True (create opts) ?bg (type opts),
         ComboBind EVT_COMBOBOX OnMapSelectionSlot] @ after
        \<and> \<not> list_ex create_path before \<and> \<not> list_ex create_path after"
    by blast
  moreover have "fst (main e opts) = None" by (simp add: run)
  ultimately show ?thesis by blast
qed

theorem create_mode_selection_witness:
  "fst (main demo_env create_on_elev) = None \<and>
   (\<exists>before after. calls (snd (main demo_env create_on_elev)) =
      before @ [ComboUnbind EVT_COMBOBOX, SelectNewMap True ''newmap'' ''elev@user1'' ''CELL'',
                ComboBind EVT_COMBOBOX OnMapSelectionSlot] @ after)"
proof -
  have r: "rules create_on_elev" by (rule rules_demo)
  have g: "given (create create_on_elev)" by (simp add: given_def create_on_elev_def)
  have b: "given (base create_on_elev) \<longrightarrow>
      find_file demo_env (base create_on_elev) ''raster'' (MAPSET demo_env) \<noteq> []"
    by (simp add: create_on_elev_def demo_env_def)
  have bg: "(if given (base create_on_elev)
      then find_file demo_env (base create_on_elev) ''raster'' (MAPSET demo_env) else []) =
      ''elev@user1''"
    by (simp add: create_on_elev_def demo_env_def given_def)
  from create_mode_selection [OF r g b] show ?thesis
    unfolding bg by (simp add: create_on_elev_def) blast
qed

text \<open>
  Claim C6. Whatever the arguments of the constructor, create mode or edit mode, its
  calls contain \<^verbatim>\<open>quitDigitizer.disconnect(self.QuitRDigit)\<close> directly followed by
  \<^verbatim>\<open>quitDigitizer.connect(lambda: self.Close())\<close>, and the signal is touched nowhere
  else.
\<close>

theorem quit_digitizer_rewired:
  "\<exists>before after.
     calls (RDigitMapDisplay_init icondir nm bm em mt s) =
       calls s @ before @
       [QuitDigitizerDisconnect QuitRDigit, QuitDigitizerConnect CloseWindow] @ after \<and>
     \<not> list_ex quit_wiring before \<and> \<not> list_ex quit_wiring after"
proof -
  let ?sel = "if nm \<noteq> []
      then [ComboUnbind EVT_COMBOBOX, SelectNewMap True nm bm mt,
            ComboBind EVT_COMBOBOX OnMapSelectionSlot]
      else [SetSelection 1, OnMapSelection]"
  let ?name = "if nm \<noteq> [] then nm else em"
  let ?before = "[MapPanelInit, SetIcon icondir ''grass.ico'', ParentBind EVT_CLOSE OnCloseWindow,
      ShortcutsAppend OnFullScreen, InitShortcuts, SetMapframe,
      MapCreatedConnect OnMapCreatedSlot, GetMap,
      AddLayer \<lparr>ltype = ''raster'', name = ?name, command = [''d.rast'', ''map='' @ ?name],
                active = True, hidden = False, opacity = 1, render = True\<rparr>,
      AddToolbar ''rdigit'' True] @ ?sel"
  have "calls (RDigitMapDisplay_init icondir nm bm em mt s) =
       calls s @ ?before @
       [QuitDigitizerDisconnect QuitRDigit, QuitDigitizerConnect CloseWindow] @
       [SetSizer, Layout]"
    by (simp add: calls_init)
  moreover have "\<not> list_ex quit_wiring ?before" by simp
  moreover have "\<not> list_ex quit_wiring [SetSizer, Layout]" by simp
  ultimately show ?thesis by blast
qed



section \<open>Rendering driver\<close>

text \<open>
  Claim C5. For every run that passes the rules and the lookup of its rasters, the
  variable \<open>GRASS_RENDER_IMMEDIATE\<close> is \<open>png\<close> when the driver setting is \<open>png\<close> and
  \<open>cairo\<close> for every other setting; the assignment comes before every call that
  constructs or shows a window, and the frame is shown after it.
\<close>

theorem render_driver_set_before_show:
  assumes "rules opts" and "resolve e opts = Inr kw"
  shows "fst (main e opts) = None \<and>
     environ (snd (main e opts)) ''GRASS_RENDER_IMMEDIATE'' =
       Some (if driver e = ''png'' then ''png'' else ''cairo'') \<and>
     (\<exists>before after. calls (snd (main e opts)) =
        before @
        [SetEnviron ''GRASS_RENDER_IMMEDIATE'' (if driver e = ''png'' then ''png'' else ''cairo'')]
        @ after
        \<and> \<not> list_ex constructs_window before \<and> FrameShow \<in> set after)"
proof -
  note run = main_ok [OF assms]
  let ?v = "if driver e = ''png'' then ''png'' else ''cairo''"
  have calls: "calls (snd (main e opts)) =
     [SetRaiseOnError False, SetGuiPath] @ [SetEnviron ''GRASS_RENDER_IMMEDIATE'' ?v] @
     drop 3 (calls (snd (main e opts)))"
    by (simp add: run calls_show_window calls_select_driver)
  have shown: "FrameShow \<in> set (drop 3 (calls (snd (main e opts))))"
    by (simp add: run calls_show_window calls_select_driver)
  have "\<not> list_ex constructs_window [SetRaiseOnError False, SetGuiPath]" by simp
  with calls shown have "\<exists>before after. calls (snd (main e opts)) =
        before @ [SetEnviron ''GRASS_RENDER_IMMEDIATE'' ?v] @ after
        \<and> \<not> list_ex constructs_window before \<and> FrameShow \<in> set after"
    by blast
  moreover have "fst (main e opts) = None" by (simp add: run)
  moreover have "environ (snd (main e opts)) ''GRASS_RENDER_IMMEDIATE'' = Some ?v"
    by (simp add: run environ_select_driver)
  ultimately show ?thesis by blast
qed

theorem render_driver_set_before_show_witness:
  "environ (snd (main demo_env edit_elev)) ''GRASS_RENDER_IMMEDIATE'' = Some ''png'' \<and>
   environ (snd (main cairo_env create_plain)) ''GRASS_RENDER_IMMEDIATE'' = Some ''cairo''"
proof -
  have g: "given (edit edit_elev)" by (simp add: given_def edit_elev_def)
  have f: "find_file demo_env (edit edit_elev) ''raster'' (MAPSET demo_env) \<noteq> []"
    by (simp add: demo_env_def edit_elev_def)
  have "\<not> given (edit create_plain)" "\<not> given (base create_plain)"
    by (simp_all add: given_def create_plain_def)
  from render_driver_set_before_show [OF rules_demo(1) resolve_edit_found [OF g f]]
    render_driver_set_before_show [OF rules_demo(3) resolve_no_base [OF this, of cairo_env]]
  show ?thesis by (simp add: demo_env_def cairo_env_def)
qed


section \<open>Map-created notifications\<close>

text \<open>
  Claim C7. For every name, layer type and third argument, the handler calls, in this
  order, \<^verbatim>\<open>Clean\<close> on the map object, \<^verbatim>\<open>AddLayer\<close> for the new map and \<^verbatim>\<open>UpdateMap\<close> on
  the map window; whatever layers the map object held before, it holds exactly the new
  layer afterwards.
\<close>

theorem map_created_replaces_layer:
  "calls (OnMapCreated nm lt add s) = calls s @
     [MapClean,
      AddLayer \<lparr>ltype = lt, name = nm, command = [''d.rast'', ''map='' @ nm],
                active = True, hidden = False, opacity = 1, render = True\<rparr>,
      GetMapWindow, UpdateMap] \<and>
   map_layers old (calls (OnMapCreated nm lt add s)) =
     [\<lparr>ltype = lt, name = nm, command = [''d.rast'', ''map='' @ nm],
       active = True, hidden = False, opacity = 1, render = True\<rparr>]"
  by (simp add: calls_OnMapCreated map_layers_append)

text \<open>
  Claim C9. Along every run of \<^verbatim>\<open>main\<close> followed by any sequence of map-created
  notifications, every layer passed to \<^verbatim>\<open>AddLayer\<close> is active, not hidden, of opacity
  1.0, rendered, and has the command \<^verbatim>\<open>["d.rast", "map=<name>"]\<close> for its own name.
\<close>

theorem every_added_layer_standard:
  "\<forall>l \<in> set (added_layers (calls (notifications ns (snd (main e opts))))).
     active l \<and> \<not> hidden l \<and> opacity l = 1 \<and> render l \<and>
     command l = [''d.rast'', ''map='' @ name l]"
proof (rule layers_notifications)
  show "\<forall>l \<in> set (added_layers (calls (snd (main e opts)))).
     active l \<and> \<not> hidden l \<and> opacity l = 1 \<and> render l \<and>
     command l = [''d.rast'', ''map='' @ name l]"
    using layers_main [of e opts] by auto
qed simp

theorem every_added_layer_standard_witness:
  "map command (added_layers (calls
     (notifications [(''newmap'', ''raster'', None), (''roads'', ''vector'', Some True)]
        (snd (main demo_env create_plain))))) =
   [[''d.rast'', ''map=newmap''], [''d.rast'', ''map=newmap''], [''d.rast'', ''map=roads'']] \<and>
   map active (added_layers (calls
     (notifications [(''newmap'', ''raster'', None), (''roads'', ''vector'', Some True)]
        (snd (main demo_env create_plain))))) = [True, True, True]"
proof -
  define ls where "ls = added_layers (calls
     (notifications [(''newmap'', ''raster'', None), (''roads'', ''vector'', Some True)]
        (snd (main demo_env create_plain))))"
  have "\<not> given (edit create_plain)" "\<not> given (base create_plain)"
    by (simp_all add: given_def create_plain_def)
  note run = main_ok [OF rules_demo(3) resolve_no_base [OF this, of demo_env]]
  have names: "map name ls = [''newmap'', ''newmap'', ''roads'']"
    unfolding ls_def
    by (simp only: run)
       (simp add: calls_OnMapCreated calls_show_window calls_select_driver
          added_layers_append create_plain_def)
  have standard: "\<forall>l \<in> set ls. active l \<and> \<not> hidden l \<and> opacity l = 1 \<and> render l \<and>
      command l = [''d.rast'', ''map='' @ name l]"
    unfolding ls_def
    by (rule every_added_layer_standard
        [of "[(''newmap'', ''raster'', None), (''roads'', ''vector'', Some True)]"
          demo_env create_plain])
  have "map command ls = map (\<lambda>n. [''d.rast'', ''map='' @ n]) (map name ls)"
    using standard by (simp add: comp_def)
  then have commands: "map command ls =
      [[''d.rast'', ''map=newmap''], [''d.rast'', ''map=newmap''], [''d.rast'', ''map=roads'']]"
    unfolding names by simp
  have "map active ls = map (\<lambda>n. True) (map name ls)"
    using standard by (simp add: comp_def)
  then have "map active ls = [True, True, True]"
    unfolding names by simp
  with commands show ?thesis unfolding ls_def by simp
qed

end
